theory Spec2Isabelle
  imports Main
begin

section \<open>Data model\<close>

text \<open>
  The facts file is a JSON array of objects \<^verbatim>\<open>{"fact": <string>, "is_enabled": <boolean>}\<close>.
  One such object is a record; the field \<^verbatim>\<open>fact\<close> is called \<open>fact_text\<close> here, since
  \<open>fact\<close> is the factorial of HOL.
\<close>

record fact_obj =
  fact_text :: string
  is_enabled :: bool

text \<open>
  What the backing file holds. \<open>None\<close> for the whole file means that
  \<^verbatim>\<open>fs.readFile\<close> rejects (the file is missing or unreadable). Bytes on which
  \<^verbatim>\<open>JSON.parse\<close> throws are \<open>Malformed\<close>; bytes that parse are identified with the
  array of fact objects they parse to (\<^verbatim>\<open>JSON.stringify\<close> and \<^verbatim>\<open>JSON.parse\<close> belong
  to the platform, and are taken to be inverse on such arrays).
\<close>

datatype file_data = Malformed | Json "fact_obj list"

datatype fs_event = ReadFile | WriteFile file_data

datatype js_error = ENOENT | EACCES | SyntaxError | TypeError | Error string

text \<open>
  The part of the environment the server touches: the backing file, whether a write of it
  succeeds, the file operations attempted so far and the lines written by
  \<^verbatim>\<open>console.error\<close>.
\<close>

record world =
  facts_file :: "file_data option"
  writable :: bool
  fs_log :: "fs_event list"
  console :: "string list"

subsection \<open>Constants of discord-interactions\<close>

datatype InteractionType =
  PING | APPLICATION_COMMAND | MESSAGE_COMPONENT | APPLICATION_COMMAND_AUTOCOMPLETE
  | MODAL_SUBMIT | OTHER_TYPE nat

datatype InteractionResponseType = PONG | CHANNEL_MESSAGE_WITH_SOURCE | MODAL

datatype TextStyleTypes = SHORT | PARAGRAPH

definition EPHEMERAL :: nat where
  "EPHEMERAL = 64"

subsection \<open>Interactions\<close>

text \<open>
  The payload \<^verbatim>\<open>interaction.data\<close>: absent, or an object with a \<^verbatim>\<open>name\<close> (a command),
  with \<^verbatim>\<open>components\<close> (a submitted modal: rows of submitted values) or with
  \<^verbatim>\<open>values\<close> (the options selected in a component).
\<close>

datatype interaction_data =
  NoData
  | CommandData string
  | ModalData "string list list"
  | ComponentData "string list"

text \<open>
  An interaction as the route reads it: \<^verbatim>\<open>type\<close>, \<^verbatim>\<open>member.user.username\<close> (taken to be
  present and a string) and \<^verbatim>\<open>data\<close>.
\<close>

record interaction =
  itype :: InteractionType
  username :: string
  data :: interaction_data

text \<open>
  A request to the route: the two signature headers (\<open>None\<close> when a header is absent), the
  answer of the external \<^verbatim>\<open>verifyKey\<close> for this request, and the interaction its body
  parses to.
\<close>

record request =
  signature :: "string option"
  timestamp :: "string option"
  verifyKey_ok :: bool
  parsed_body :: interaction

subsection \<open>Responses\<close>

record select_option =
  opt_label :: string
  opt_value :: string
  opt_default :: bool

datatype component =
  ACTION_ROW "component list"
  | INPUT_TEXT string TextStyleTypes string nat nat bool
  | STRING_SELECT string string nat nat "select_option list"

record callback_data =
  custom_id :: "string option"
  title :: "string option"
  content :: "string option"
  components :: "component list option"
  flags :: "nat option"

datatype json_body =
  ErrorObj string
  | InteractionResponse InteractionResponseType "callback_data option"

datatype response_body = TextBody string | JsonBody json_body

record response =
  body :: response_body
  status :: nat
  headers :: "(string \<times> string) list"

section \<open>The server\<close>

subsection \<open>Platform functions\<close>

text \<open>\<^verbatim>\<open>String.prototype.toLowerCase\<close>, on the ASCII letters.\<close>

definition lower_char :: "char \<Rightarrow> char" where
  "lower_char c =
     (case map_of (zip ''ABCDEFGHIJKLMNOPQRSTUVWXYZ'' ''abcdefghijklmnopqrstuvwxyz'') c of
        Some d \<Rightarrow> d
      | None \<Rightarrow> c)"

definition toLowerCase :: "string \<Rightarrow> string" where
  "toLowerCase s = map lower_char s"

text \<open>
  A JavaScript \<^verbatim>\<open>Map\<close> is a list of entries in insertion order: setting a key that is
  present replaces its value where it stands, a new key goes to the end.
  \<^verbatim>\<open>new Map(entries)\<close> sets the entries from left to right.
\<close>

fun Map_set :: "('k \<times> 'v) list \<Rightarrow> 'k \<Rightarrow> 'v \<Rightarrow> ('k \<times> 'v) list" where
  "Map_set [] k v = [(k, v)]"
| "Map_set ((k', v') # m) k v =
     (if k' = k then (k', v) # m else (k', v') # Map_set m k v)"

definition new_Map :: "('k \<times> 'v) list \<Rightarrow> ('k \<times> 'v) list" where
  "new_Map entries = foldl (\<lambda>m (k, v). Map_set m k v) [] entries"

definition Map_values :: "('k \<times> 'v) list \<Rightarrow> 'v list" where
  "Map_values m = map snd m"

definition console_error :: "string \<Rightarrow> world \<Rightarrow> world" where
  "console_error line w = w\<lparr>console := console w @ [line]\<rparr>"

definition readFile :: "world \<Rightarrow> (js_error + file_data) \<times> world" where
  "readFile w =
     (case facts_file w of
        None \<Rightarrow> (Inl ENOENT, w\<lparr>fs_log := fs_log w @ [ReadFile]\<rparr>)
      | Some d \<Rightarrow> (Inr d, w\<lparr>fs_log := fs_log w @ [ReadFile]\<rparr>))"

definition writeFile :: "file_data \<Rightarrow> world \<Rightarrow> (js_error + unit) \<times> world" where
  "writeFile d w =
     (if writable w
      then (Inr (), w\<lparr>facts_file := Some d, fs_log := fs_log w @ [WriteFile d]\<rparr>)
      else (Inl EACCES, w\<lparr>fs_log := fs_log w @ [WriteFile d]\<rparr>))"

definition JSON_parse :: "file_data \<Rightarrow> js_error + fact_obj list" where
  "JSON_parse d = (case d of Malformed \<Rightarrow> Inl SyntaxError | Json fs \<Rightarrow> Inr fs)"

definition JSON_stringify :: "fact_obj list \<Rightarrow> file_data" where
  "JSON_stringify fs = Json fs"

subsection \<open>commands.js\<close>

text \<open>
  The names of the command metadata. The server imports \<^verbatim>\<open>ADD_COMMAND\<close> and
  \<^verbatim>\<open>SELECT_COMMAND\<close>, which the \<^verbatim>\<open>commands.js\<close> that comes with it declares.
  \<^verbatim>\<open>LIST_COMMAND\<close> belongs to another version of \<^verbatim>\<open>commands.js\<close>, which declares no
  \<^verbatim>\<open>SELECT_COMMAND\<close>; the server neither imports it nor has a case for it.
\<close>

definition SELECT_COMMAND_name :: string where
  "SELECT_COMMAND_name = ''select''"

definition ADD_COMMAND_name :: string where
  "ADD_COMMAND_name = ''add''"

definition LIST_COMMAND_name :: string where
  "LIST_COMMAND_name = ''list''"

subsection \<open>JsonResponse and validateUserAccess\<close>

text \<open>
  The constructor of \<^verbatim>\<open>JsonResponse\<close>: the JSON content type is set only when no
  \<^verbatim>\<open>init\<close> is given; an \<^verbatim>\<open>init\<close> here is always \<^verbatim>\<open>{ status: n }\<close>. It names no
  header, and a \<^verbatim>\<open>Response\<close> built from a string body without a content type carries
  \<^verbatim>\<open>text/plain;charset=UTF-8\<close>.
\<close>

definition JsonResponse :: "json_body \<Rightarrow> nat option \<Rightarrow> response" where
  "JsonResponse b init =
     (case init of
        None \<Rightarrow> \<lparr>body = JsonBody b, status = 200,
                  headers = [(''content-type'', ''application/json;charset=UTF-8'')]\<rparr>
      | Some s \<Rightarrow> \<lparr>body = JsonBody b, status = s,
                   headers = [(''content-type'', ''text/plain;charset=UTF-8'')]\<rparr>)"

text \<open>\<open>None\<close> is the \<^verbatim>\<open>undefined\<close> that the function returns for an allowed user.\<close>

definition validateUserAccess :: "string \<Rightarrow> world \<Rightarrow> response option \<times> world" where
  "validateUserAccess name w =
     (if name \<notin> set [''LuggageMoose'', ''encryptoknight'']
      then (Some (JsonResponse (ErrorObj ''Invalid user access'') (Some 403)),
            console_error ''Invalid user access'' w)
      else (None, w))"

subsection \<open>The fact store\<close>

definition getFacts :: "world \<Rightarrow> (js_error + fact_obj list) \<times> world" where
  "getFacts w =
     (case readFile w of
        (Inl e, w1) \<Rightarrow> (Inr [], console_error ''Error reading facts file:'' w1)
      | (Inr d, w1) \<Rightarrow>
          (case JSON_parse d of
             Inl e \<Rightarrow> (Inr [], console_error ''Error reading facts file:'' w1)
           | Inr fs \<Rightarrow> (Inr fs, w1)))"

text \<open>
  The handler of both \<^verbatim>\<open>catch\<close> blocks of the store mutations: log, then throw a new
  \<^verbatim>\<open>Error\<close> with the message.
\<close>

definition rethrow :: "world \<Rightarrow> (js_error + unit) \<times> world" where
  "rethrow w =
     (Inl (Error ''Error writing to facts file:''),
      console_error ''Error writing to facts file:'' w)"

text \<open>
  The second parameter is \<open>None\<close> when the caller passes no argument; the default
  \<^verbatim>\<open>is_enabled = true\<close> then applies.
\<close>

definition storeFact :: "string \<Rightarrow> bool option \<Rightarrow> world \<Rightarrow> (js_error + unit) \<times> world" where
  "storeFact newFact arg w =
     (let enabled = (case arg of None \<Rightarrow> True | Some b \<Rightarrow> b) in
      case getFacts w of
        (Inl e, w1) \<Rightarrow> rethrow w1
      | (Inr facts, w1) \<Rightarrow>
          (let factsAsMap =
                 new_Map (map (\<lambda>f. (fact_text f, f)) facts
                          @ [(newFact, \<lparr>fact_text = newFact, is_enabled = enabled\<rparr>)]);
               dedupedFacts = Map_values factsAsMap
           in case writeFile (JSON_stringify dedupedFacts) w1 of
                (Inl e, w2) \<Rightarrow> rethrow w2
              | (Inr u, w2) \<Rightarrow> (Inr (), w2)))"

text \<open>\<^verbatim>\<open>new Set(_newFacts)\<close> with \<^verbatim>\<open>has\<close> is membership in the list.\<close>

definition storeFacts :: "string list \<Rightarrow> world \<Rightarrow> (js_error + unit) \<times> world" where
  "storeFacts newFacts0 w =
     (let newFacts = set newFacts0 in
      case getFacts w of
        (Inl e, w1) \<Rightarrow> rethrow w1
      | (Inr facts, w1) \<Rightarrow>
          (let factsAsMap =
                 new_Map (map (\<lambda>f. (fact_text f,
                                      \<lparr>fact_text = fact_text f,
                                       is_enabled = (fact_text f \<in> newFacts)\<rparr>)) facts);
               dedupedFacts = Map_values factsAsMap
           in case writeFile (JSON_stringify dedupedFacts) w1 of
                (Inl e, w2) \<Rightarrow> rethrow w2
              | (Inr u, w2) \<Rightarrow> (Inr (), w2)))"

subsection \<open>The route POST /\<close>

text \<open>An absent header and an empty one are both falsy.\<close>

definition verifyDiscordRequest :: "request \<Rightarrow> bool \<times> interaction option" where
  "verifyDiscordRequest req =
     (let isValidRequest =
            (signature req \<noteq> None \<and> signature req \<noteq> Some [] \<and>
             timestamp req \<noteq> None \<and> timestamp req \<noteq> Some [] \<and> verifyKey_ok req)
      in if \<not> isValidRequest then (False, None) else (True, Some (parsed_body req)))"

text \<open>The response literals of the route, in the order of its branches.\<close>

definition pong_response :: response where
  "pong_response = JsonResponse (InteractionResponse PONG None) None"

definition add_response :: response where
  "add_response =
     JsonResponse
       (InteractionResponse MODAL
          (Some \<lparr>custom_id = Some ''fact_modal'',
                 title = Some ''Add a cool Ben's Fact!'',
                 content = None,
                 components =
                   Some [ACTION_ROW
                           [INPUT_TEXT ''fact'' PARAGRAPH ''A cool Ben's Fact'' 1 1000 True]],
                 flags = None\<rparr>))
       None"

definition select_response :: "fact_obj list \<Rightarrow> response" where
  "select_response facts =
     JsonResponse
       (InteractionResponse CHANNEL_MESSAGE_WITH_SOURCE
          (Some \<lparr>custom_id = None,
                 title = None,
                 content = None,
                 components =
                   Some [ACTION_ROW
                           [STRING_SELECT ''select_facts''
                              ''Choose which of Ben's facts will make the cut!''
                              1 (length facts)
                              (map (\<lambda>f. \<lparr>opt_label = fact_text f, opt_value = fact_text f,
                                          opt_default = is_enabled f\<rparr>) facts)]],
                 flags = Some EPHEMERAL\<rparr>))
       None"

definition message_response :: "string \<Rightarrow> response" where
  "message_response msg =
     JsonResponse
       (InteractionResponse CHANNEL_MESSAGE_WITH_SOURCE
          (Some \<lparr>custom_id = None, title = None, content = Some msg,
                 components = None, flags = Some EPHEMERAL\<rparr>))
       None"

definition unknown_type_response :: response where
  "unknown_type_response = JsonResponse (ErrorObj ''Unknown Type'') (Some 400)"

text \<open>
  The reads of the payload. A property of \<^verbatim>\<open>undefined\<close> is a \<^verbatim>\<open>TypeError\<close>;
  \<^verbatim>\<open>new Set(undefined)\<close> is the empty set.
\<close>

fun data_name :: "interaction_data \<Rightarrow> js_error + string" where
  "data_name (CommandData n) = Inr n"
| "data_name _ = Inl TypeError"

fun data_first_value :: "interaction_data \<Rightarrow> js_error + string" where
  "data_first_value (ModalData ((v # vs) # rows)) = Inr v"
| "data_first_value _ = Inl TypeError"

fun data_values :: "interaction_data \<Rightarrow> js_error + string list" where
  "data_values (ComponentData vs) = Inr vs"
| "data_values NoData = Inl TypeError"
| "data_values _ = Inr []"

text \<open>The body of the route after the signature check.\<close>

definition handle_interaction :: "interaction \<Rightarrow> world \<Rightarrow> (js_error + response) \<times> world" where
  "handle_interaction i w =
     (if itype i = PING then (Inr pong_response, w)
      else if itype i = APPLICATION_COMMAND then
        (case validateUserAccess (username i) w of
           (Some userAccessResponse, w1) \<Rightarrow> (Inr userAccessResponse, w1)
         | (None, w1) \<Rightarrow>
             (case data_name (data i) of
                Inl e \<Rightarrow> (Inl e, w1)
              | Inr n \<Rightarrow>
                  if toLowerCase n = toLowerCase ADD_COMMAND_name then (Inr add_response, w1)
                  else if toLowerCase n = toLowerCase SELECT_COMMAND_name then
                    (case getFacts w1 of
                       (Inl e, w2) \<Rightarrow> (Inl e, w2)
                     | (Inr facts, w2) \<Rightarrow> (Inr (select_response facts), w2))
                  else (Inr unknown_type_response, w1)))
      else if itype i = MODAL_SUBMIT then
        (case validateUserAccess (username i) w of
           (Some userAccessResponse, w1) \<Rightarrow> (Inr userAccessResponse, w1)
         | (None, w1) \<Rightarrow>
             (case data_first_value (data i) of
                Inl e \<Rightarrow> (Inl e, w1)
              | Inr newFact \<Rightarrow>
                  (case storeFact newFact None w1 of
                     (Inl e, w2) \<Rightarrow> (Inl e, w2)
                   | (Inr u, w2) \<Rightarrow>
                       (Inr (message_response
                               ''Fact added! They better hold on to their butts...''), w2))))
      else if itype i = MESSAGE_COMPONENT then
        (case validateUserAccess (username i) w of
           (Some userAccessResponse, w1) \<Rightarrow> (Inr userAccessResponse, w1)
         | (None, w1) \<Rightarrow>
             (case data_values (data i) of
                Inl e \<Rightarrow> (Inl e, w1)
              | Inr facts \<Rightarrow>
                  (case storeFacts facts w1 of
                     (Inl e, w2) \<Rightarrow> (Inl e, w2)
                   | (Inr u, w2) \<Rightarrow> (Inr (message_response ''Facts updated!''), w2))))
      else (Inr unknown_type_response, console_error ''Unknown Type'' w))"

text \<open>
  \<^verbatim>\<open>new Response('Bad request signature.', { status: 401 })\<close>, with the content type
  that the string body brings.
\<close>

definition bad_signature_response :: response where
  "bad_signature_response =
     \<lparr>body = TextBody ''Bad request signature.'', status = 401,
      headers = [(''content-type'', ''text/plain;charset=UTF-8'')]\<rparr>"

definition post_root :: "request \<Rightarrow> world \<Rightarrow> (js_error + response) \<times> world" where
  "post_root req w =
     (case verifyDiscordRequest req of
        (True, Some i) \<Rightarrow> handle_interaction i w
      | _ \<Rightarrow> (Inr bad_signature_response, w))"

section \<open>Observations used by the properties\<close>

text \<open>The collection a load of the backing file yields: empty when the read or the parse fails.\<close>

definition stored_collection :: "world \<Rightarrow> fact_obj list" where
  "stored_collection w = (case facts_file w of Some (Json fs) \<Rightarrow> fs | _ \<Rightarrow> [])"

text \<open>The collection handed to the most recent \<^verbatim>\<open>fs.writeFile\<close>, if that was the last file operation.\<close>

definition last_written :: "world \<Rightarrow> fact_obj list option" where
  "last_written w =
     (case rev (fs_log w) of
        WriteFile (Json fs) # _ \<Rightarrow> Some fs
      | _ \<Rightarrow> None)"

text \<open>A sequence of \<^verbatim>\<open>storeFact\<close> calls, each awaited; a rejected call ends the sequence.\<close>

fun storeFact_seq :: "(string \<times> bool option) list \<Rightarrow> world \<Rightarrow> (js_error + unit) \<times> world" where
  "storeFact_seq [] w = (Inr (), w)"
| "storeFact_seq ((t, a) # calls) w =
     (case storeFact t a w of
        (Inl e, w1) \<Rightarrow> (Inl e, w1)
      | (Inr u, w1) \<Rightarrow> storeFact_seq calls w1)"

text \<open>The two mutations of the store, as one type.\<close>

datatype mutation = AddOne string "bool option" | SetEnabledSet "string list"

fun run_mutation :: "mutation \<Rightarrow> world \<Rightarrow> (js_error + unit) \<times> world" where
  "run_mutation (AddOne t a) w = storeFact t a w"
| "run_mutation (SetEnabledSet sel) w = storeFacts sel w"

text \<open>Kinds of responses, and the flags a response carries.\<close>

definition response_flags :: "response \<Rightarrow> nat option" where
  "response_flags r =
     (case body r of
        JsonBody (InteractionResponse t (Some d)) \<Rightarrow> flags d
      | _ \<Rightarrow> None)"

definition is_ephemeral :: "response \<Rightarrow> bool" where
  "is_ephemeral r =
     (case response_flags r of None \<Rightarrow> False | Some n \<Rightarrow> odd (n div EPHEMERAL))"

definition is_pong :: "response \<Rightarrow> bool" where
  "is_pong r = (body r = JsonBody (InteractionResponse PONG None))"

definition is_error_response :: "response \<Rightarrow> bool" where
  "is_error_response r =
     (case body r of
        TextBody s \<Rightarrow> status r \<noteq> 200
      | JsonBody (ErrorObj e) \<Rightarrow> True
      | _ \<Rightarrow> False)"

definition forbidden_response :: response where
  "forbidden_response = JsonResponse (ErrorObj ''Invalid user access'') (Some 403)"

text \<open>
  The value of \<^verbatim>\<open>dedupedFacts\<close> in \<^verbatim>\<open>storeFact\<close> and in \<^verbatim>\<open>storeFacts\<close>, as a function
  of the facts loaded.
\<close>

definition storeFact_deduped :: "string \<Rightarrow> bool option \<Rightarrow> fact_obj list \<Rightarrow> fact_obj list" where
  "storeFact_deduped newFact arg facts =
     Map_values
       (new_Map (map (\<lambda>f. (fact_text f, f)) facts
                 @ [(newFact,
                     \<lparr>fact_text = newFact,
                      is_enabled = (case arg of None \<Rightarrow> True | Some b \<Rightarrow> b)\<rparr>)]))"

definition storeFacts_deduped :: "string list \<Rightarrow> fact_obj list \<Rightarrow> fact_obj list" where
  "storeFacts_deduped newFacts0 facts =
     Map_values
       (new_Map (map (\<lambda>f. (fact_text f,
                            \<lparr>fact_text = fact_text f,
                             is_enabled = (fact_text f \<in> set newFacts0)\<rparr>)) facts))"

section \<open>Auxiliary lemmas\<close>

subsection \<open>Insertion-ordered maps\<close>

lemma Map_set_map_of: "map_of (Map_set m k v) = (map_of m)(k \<mapsto> v)"
  by (induction m k v rule: Map_set.induct) (auto simp: fun_eq_iff)

lemma Map_set_keys:
  "map fst (Map_set m k v) = (if k \<in> set (map fst m) then map fst m else map fst m @ [k])"
  by (induction m k v rule: Map_set.induct) auto

lemma Map_set_fresh: "k \<notin> set (map fst m) \<Longrightarrow> Map_set m k v = m @ [(k, v)]"
  by (induction m k v rule: Map_set.induct) auto

lemma Map_set_distinct: "distinct (map fst m) \<Longrightarrow> distinct (map fst (Map_set m k v))"
  by (simp add: Map_set_keys)

lemma foldl_Map_set_distinct:
  "distinct (map fst m) \<Longrightarrow> distinct (map fst (foldl (\<lambda>m (k, v). Map_set m k v) m es))"
  by (induction es arbitrary: m) (auto simp: Map_set_distinct)

lemma foldl_Map_set_map_of:
  "map_of (foldl (\<lambda>m (k, v). Map_set m k v) m es) = map_of m ++ map_of (rev es)"
proof (induction es arbitrary: m)
  case Nil
  show ?case by simp
next
  case (Cons e es)
  obtain k v where e: "e = (k, v)" by (cases e)
  have "map_of (foldl (\<lambda>m (k, v). Map_set m k v) m (e # es))
        = map_of (Map_set m k v) ++ map_of (rev es)"
    using Cons.IH [of "Map_set m k v"] by (simp add: e)
  also have "\<dots> = map_of m ++ map_of (rev (e # es))"
    by (simp add: e Map_set_map_of fun_eq_iff map_add_def split: option.splits)
  finally show ?case .
qed

lemma foldl_Map_set_fresh:
  "distinct (map fst m @ map fst es) \<Longrightarrow> foldl (\<lambda>m (k, v). Map_set m k v) m es = m @ es"
proof (induction es arbitrary: m)
  case Nil
  show ?case by simp
next
  case (Cons e es)
  obtain k v where e: "e = (k, v)" by (cases e)
  from Cons.prems have fresh: "k \<notin> set (map fst m)" by (auto simp: e)
  from Cons.prems have "distinct (map fst (m @ [(k, v)]) @ map fst es)" by (auto simp: e)
  from Cons.IH [OF this] show ?case by (simp add: e Map_set_fresh [OF fresh])
qed

lemma new_Map_distinct: "distinct (map fst (new_Map es))"
  unfolding new_Map_def by (rule foldl_Map_set_distinct) simp

lemma new_Map_map_of: "map_of (new_Map es) = map_of (rev es)"
  unfolding new_Map_def by (simp add: foldl_Map_set_map_of)

lemma new_Map_distinct_id: "distinct (map fst es) \<Longrightarrow> new_Map es = es"
  unfolding new_Map_def using foldl_Map_set_fresh [of "[]" es] by simp

lemma new_Map_mem: "(k, v) \<in> set (new_Map es) \<longleftrightarrow> map_of (rev es) k = Some v"
  using map_of_eq_Some_iff [OF new_Map_distinct, of es k v] by (simp add: new_Map_map_of)

lemma new_Map_keys_set: "set (map fst (new_Map es)) = set (map fst es)"
proof -
  have "fst ` set (new_Map es) = dom (map_of (new_Map es))"
    by (simp add: dom_map_of_conv_image_fst)
  also have "\<dots> = fst ` set (rev es)"
    by (simp add: new_Map_map_of dom_map_of_conv_image_fst)
  finally show ?thesis by simp
qed

lemma new_Map_subset: "set (new_Map es) \<subseteq> set es"
proof
  fix p assume "p \<in> set (new_Map es)"
  then have "map_of (rev es) (fst p) = Some (snd p)"
    using new_Map_mem [of "fst p" "snd p" es] by simp
  then have "(fst p, snd p) \<in> set (rev es)" by (rule map_of_SomeD)
  then show "p \<in> set es" by simp
qed

lemma keyed_values:
  "\<forall>(k, v) \<in> set m. key v = k \<Longrightarrow> map key (map snd m) = map fst m"
  by (induction m) auto

lemma new_Map_keyed:
  assumes "\<forall>(k, v) \<in> set es. key v = k"
  shows "map key (Map_values (new_Map es)) = map fst (new_Map es)"
  unfolding Map_values_def using assms new_Map_subset [of es] by (intro keyed_values) blast

subsection \<open>storeFact\<close>

lemma storeFact_deduped_texts:
  "map fact_text (storeFact_deduped t a fs)
     = map fst (new_Map (map (\<lambda>f. (fact_text f, f)) fs
         @ [(t, \<lparr>fact_text = t, is_enabled = (case a of None \<Rightarrow> True | Some b \<Rightarrow> b)\<rparr>)]))"
  unfolding storeFact_deduped_def by (rule new_Map_keyed) auto

lemma storeFact_deduped_distinct: "distinct (map fact_text (storeFact_deduped t a fs))"
  by (simp only: storeFact_deduped_texts new_Map_distinct)

lemma storeFact_deduped_set:
  "set (map fact_text (storeFact_deduped t a fs)) = insert t (set (map fact_text fs))"
  by (simp only: storeFact_deduped_texts new_Map_keys_set) (auto simp: image_iff)

lemma storeFact_deduped_mem:
  assumes "r \<in> set (storeFact_deduped t a fs)"
  shows "if fact_text r = t then is_enabled r = (case a of None \<Rightarrow> True | Some b \<Rightarrow> b)
         else r \<in> set fs"
proof -
  let ?new = "\<lparr>fact_text = t, is_enabled = (case a of None \<Rightarrow> True | Some b \<Rightarrow> b)\<rparr>"
  let ?es = "map (\<lambda>f. (fact_text f, f)) fs @ [(t, ?new)]"
  from assms obtain k where k: "(k, r) \<in> set (new_Map ?es)"
    by (auto simp: storeFact_deduped_def Map_values_def)
  then have m: "map_of (rev ?es) k = Some r" by (simp only: new_Map_mem)
  from k new_Map_subset [of ?es] have "(k, r) \<in> set ?es" by blast
  then have kr: "k = fact_text r" by auto
  show ?thesis
  proof (cases "fact_text r = t")
    case True
    with m kr have "r = ?new" by simp
    with True show ?thesis by simp
  next
    case False
    with m kr have "map_of (rev (map (\<lambda>f. (fact_text f, f)) fs)) k = Some r" by simp
    then have "(k, r) \<in> set (rev (map (\<lambda>f. (fact_text f, f)) fs))" by (rule map_of_SomeD)
    with False show ?thesis by auto
  qed
qed

lemma getFacts_result: "fst (getFacts w) = Inr (stored_collection w)"
  by (simp add: getFacts_def readFile_def JSON_parse_def stored_collection_def
      split: option.splits file_data.splits)

lemma getFacts_world:
  "facts_file (snd (getFacts w)) = facts_file w"
  "writable (snd (getFacts w)) = writable w"
  "fs_log (snd (getFacts w)) = fs_log w @ [ReadFile]"
  by (simp_all add: getFacts_def readFile_def JSON_parse_def console_error_def
      split: option.splits file_data.splits)

lemma getFacts_eq:
  "\<exists>w1. getFacts w = (Inr (stored_collection w), w1) \<and> facts_file w1 = facts_file w \<and>
        writable w1 = writable w \<and> fs_log w1 = fs_log w @ [ReadFile]"
  using getFacts_result [of w] getFacts_world [of w] by (cases "getFacts w") simp

lemma storeFact_ok:
  assumes "writable w"
  shows "\<exists>w'. storeFact t a w = (Inr (), w') \<and> writable w' \<and>
           facts_file w' = Some (Json (storeFact_deduped t a (stored_collection w)))"
proof -
  obtain w1 where g: "getFacts w = (Inr (stored_collection w), w1)"
    and w1: "writable w1 = writable w"
    using getFacts_eq [of w] by blast
  show ?thesis
    using assms w1
    by (simp add: storeFact_def g writeFile_def JSON_stringify_def storeFact_deduped_def Let_def)
qed

lemma storeFact_Inr:
  assumes "storeFact t a w = (Inr u, w')"
  shows "facts_file w' = Some (Json (storeFact_deduped t a (stored_collection w))) \<and>
         fs_log w' = fs_log w
            @ [ReadFile, WriteFile (Json (storeFact_deduped t a (stored_collection w)))]"
proof -
  obtain w1 where g: "getFacts w = (Inr (stored_collection w), w1)"
    and w1: "fs_log w1 = fs_log w @ [ReadFile]"
    using getFacts_eq [of w] by blast
  show ?thesis
    using assms w1
    by (auto simp add: storeFact_def g writeFile_def JSON_stringify_def storeFact_deduped_def
        Let_def rethrow_def split: if_splits)
qed

lemma storeFacts_ok:
  assumes "writable w"
  shows "\<exists>w'. storeFacts sel w = (Inr (), w') \<and> writable w' \<and>
           facts_file w' = Some (Json (storeFacts_deduped sel (stored_collection w)))"
proof -
  obtain w1 where g: "getFacts w = (Inr (stored_collection w), w1)"
    and w1: "writable w1 = writable w"
    using getFacts_eq [of w] by blast
  show ?thesis
    using assms w1
    by (simp add: storeFacts_def g writeFile_def JSON_stringify_def storeFacts_deduped_def Let_def)
qed

lemma storeFacts_Inr:
  assumes "storeFacts sel w = (Inr u, w')"
  shows "facts_file w' = Some (Json (storeFacts_deduped sel (stored_collection w))) \<and>
         fs_log w' = fs_log w
            @ [ReadFile, WriteFile (Json (storeFacts_deduped sel (stored_collection w)))]"
proof -
  obtain w1 where g: "getFacts w = (Inr (stored_collection w), w1)"
    and w1: "fs_log w1 = fs_log w @ [ReadFile]"
    using getFacts_eq [of w] by blast
  show ?thesis
    using assms w1
    by (auto simp add: storeFacts_def g writeFile_def JSON_stringify_def storeFacts_deduped_def
        Let_def rethrow_def split: if_splits)
qed

lemma stored_collection_Json: "facts_file w = Some (Json fs) \<Longrightarrow> stored_collection w = fs"
  by (simp add: stored_collection_def)

subsection \<open>Sequences\<close>

lemma storeFact_seq_general:
  assumes "writable w"
  shows "\<exists>w'. storeFact_seq calls w = (Inr (), w') \<and>
           set (map fact_text (stored_collection w'))
             = set (map fact_text (stored_collection w)) \<union> fst ` set calls \<and>
           (calls \<noteq> [] \<longrightarrow> distinct (map fact_text (stored_collection w'))) \<and>
           (\<forall>f \<in> set (stored_collection w').
              case map_of (rev calls) (fact_text f) of
                Some a \<Rightarrow> is_enabled f = (case a of None \<Rightarrow> True | Some b \<Rightarrow> b)
              | None \<Rightarrow> f \<in> set (stored_collection w))"
  using assms
proof (induction calls arbitrary: w)
  case Nil
  show ?case by simp
next
  case (Cons c calls)
  obtain t a where c: "c = (t, a)" by (cases c)
  from storeFact_ok [OF Cons.prems, of t a] obtain w1 where
    s1: "storeFact t a w = (Inr (), w1)" and wr1: "writable w1"
    and f1: "facts_file w1 = Some (Json (storeFact_deduped t a (stored_collection w)))"
    by blast
  from f1 have sc1: "stored_collection w1 = storeFact_deduped t a (stored_collection w)"
    by (rule stored_collection_Json)
  from Cons.IH [OF wr1] obtain w' where
    run: "storeFact_seq calls w1 = (Inr (), w')"
    and texts: "set (map fact_text (stored_collection w'))
             = set (map fact_text (stored_collection w1)) \<union> fst ` set calls"
    and dist: "calls \<noteq> [] \<longrightarrow> distinct (map fact_text (stored_collection w'))"
    and flags: "\<forall>f \<in> set (stored_collection w').
              case map_of (rev calls) (fact_text f) of
                Some a \<Rightarrow> is_enabled f = (case a of None \<Rightarrow> True | Some b \<Rightarrow> b)
              | None \<Rightarrow> f \<in> set (stored_collection w1)"
    by blast
  have r1: "storeFact_seq (c # calls) w = (Inr (), w')"
    by (simp add: c s1 run)
  have r2: "set (map fact_text (stored_collection w'))
             = set (map fact_text (stored_collection w)) \<union> fst ` set (c # calls)"
    using texts storeFact_deduped_set [of t a "stored_collection w"] by (simp add: sc1 c)
  have r3: "distinct (map fact_text (stored_collection w'))"
  proof (cases "calls = []")
    case True
    with run have "w' = w1" by simp
    then show ?thesis by (simp only: sc1 storeFact_deduped_distinct)
  next
    case False
    with dist show ?thesis by simp
  qed
  have r4: "\<forall>f \<in> set (stored_collection w').
              case map_of (rev (c # calls)) (fact_text f) of
                Some a \<Rightarrow> is_enabled f = (case a of None \<Rightarrow> True | Some b \<Rightarrow> b)
              | None \<Rightarrow> f \<in> set (stored_collection w)"
  proof
    fix f assume f: "f \<in> set (stored_collection w')"
    show "case map_of (rev (c # calls)) (fact_text f) of
                Some a \<Rightarrow> is_enabled f = (case a of None \<Rightarrow> True | Some b \<Rightarrow> b)
              | None \<Rightarrow> f \<in> set (stored_collection w)"
    proof (cases "map_of (rev calls) (fact_text f)")
      case (Some a')
      with flags f have "is_enabled f = (case a' of None \<Rightarrow> True | Some b \<Rightarrow> b)" by force
      with Some show ?thesis by (simp add: map_add_def)
    next
      case None
      with flags f have "f \<in> set (storeFact_deduped t a (stored_collection w))"
        by (force simp: sc1)
      from storeFact_deduped_mem [OF this] None show ?thesis
        by (simp add: map_add_def c split: if_splits)
    qed
  qed
  from r1 r2 r3 r4 show ?case by blast
qed


subsection \<open>storeFacts\<close>

lemma storeFacts_deduped_texts:
  "map fact_text (storeFacts_deduped sel fs)
     = map fst (new_Map (map (\<lambda>f. (fact_text f,
                            \<lparr>fact_text = fact_text f,
                             is_enabled = (fact_text f \<in> set sel)\<rparr>)) fs))"
  unfolding storeFacts_deduped_def by (rule new_Map_keyed) auto

lemma storeFacts_deduped_distinct: "distinct (map fact_text (storeFacts_deduped sel fs))"
  by (simp only: storeFacts_deduped_texts new_Map_distinct)

lemma storeFacts_deduped_set:
  "set (map fact_text (storeFacts_deduped sel fs)) = set (map fact_text fs)"
  by (simp only: storeFacts_deduped_texts new_Map_keys_set) (auto simp: image_iff)

lemma storeFacts_deduped_mem:
  assumes "r \<in> set (storeFacts_deduped sel fs)"
  shows "is_enabled r = (fact_text r \<in> set sel)"
proof -
  let ?es = "map (\<lambda>f. (fact_text f,
                \<lparr>fact_text = fact_text f, is_enabled = (fact_text f \<in> set sel)\<rparr>)) fs"
  from assms obtain k where "(k, r) \<in> set (new_Map ?es)"
    by (auto simp: storeFacts_deduped_def Map_values_def)
  with new_Map_subset [of ?es] have "(k, r) \<in> set ?es" by blast
  then show ?thesis by auto
qed

lemma storeFacts_deduped_id:
  assumes "distinct (map fact_text fs)"
  shows "storeFacts_deduped sel fs
         = map (\<lambda>f. \<lparr>fact_text = fact_text f, is_enabled = (fact_text f \<in> set sel)\<rparr>) fs"
proof -
  let ?es = "map (\<lambda>f. (fact_text f,
                \<lparr>fact_text = fact_text f, is_enabled = (fact_text f \<in> set sel)\<rparr>)) fs"
  have "map fst ?es = map fact_text fs" by simp
  with assms have "distinct (map fst ?es)" by (simp only:)
  then have "new_Map ?es = ?es" by (rule new_Map_distinct_id)
  then show ?thesis by (simp add: storeFacts_deduped_def Map_values_def)
qed


lemmas store_defs =
  storeFact_def storeFacts_def getFacts_def readFile_def writeFile_def JSON_parse_def
  JSON_stringify_def new_Map_def Map_values_def console_error_def rethrow_def
  stored_collection_def Let_def

subsection \<open>The guard and the route\<close>

lemma validateUserAccess_cases:
  "validateUserAccess name w = (None, w) \<or>
   validateUserAccess name w = (Some forbidden_response, console_error ''Invalid user access'' w)"
  by (simp add: validateUserAccess_def forbidden_response_def)

lemma validateUserAccess_denied:
  assumes "fst (validateUserAccess name w) \<noteq> None"
  shows "validateUserAccess name w
         = (Some forbidden_response, console_error ''Invalid user access'' w)"
  using assms validateUserAccess_cases [of name w] by auto

lemma validateUserAccess_allowed:
  assumes "fst (validateUserAccess name w) = None"
  shows "validateUserAccess name w = (None, w)"
  using assms validateUserAccess_cases [of name w] by auto

lemma toLowerCase_add: "toLowerCase ''add'' = ''add''"
  by (simp add: toLowerCase_def lower_char_def)

lemma toLowerCase_select: "toLowerCase ''select'' = ''select''"
  by (simp add: toLowerCase_def lower_char_def)

lemma command_names:
  "toLowerCase ADD_COMMAND_name = ''add''"
  "toLowerCase SELECT_COMMAND_name = ''select''"
  by (simp_all add: ADD_COMMAND_name_def SELECT_COMMAND_name_def toLowerCase_add
      toLowerCase_select)

lemma toLowerCase_list: "toLowerCase ''list'' = ''list''"
  by (simp add: toLowerCase_def lower_char_def)

lemma handle_interaction_responses:
  assumes "handle_interaction i w = (Inr r, w')"
  shows "r = pong_response \<or> r = forbidden_response \<or> r = unknown_type_response \<or>
         r = add_response \<or> (\<exists>fs. r = select_response fs) \<or> (\<exists>msg. r = message_response msg)"
  using assms validateUserAccess_cases [of "username i" w]
  by (auto simp: handle_interaction_def split: if_splits prod.splits option.splits sum.splits)

lemma post_root_responses:
  assumes "post_root req w = (Inr r, w')"
  shows "r = bad_signature_response \<or>
         r = pong_response \<or> r = forbidden_response \<or> r = unknown_type_response \<or>
         r = add_response \<or> (\<exists>fs. r = select_response fs) \<or> (\<exists>msg. r = message_response msg)"
proof (cases "verifyDiscordRequest req")
  case (Pair ok io)
  show ?thesis
  proof (cases "ok \<and> io \<noteq> None")
    case True
    then obtain i where "verifyDiscordRequest req = (True, Some i)" using Pair by auto
    with assms have "handle_interaction i w = (Inr r, w')" by (simp add: post_root_def)
    from handle_interaction_responses [OF this] show ?thesis by blast
  next
    case False
    with Pair assms show ?thesis
      by (auto simp: post_root_def split: bool.splits option.splits)
  qed
qed

lemma response_kinds:
  "is_pong pong_response"
  "is_error_response forbidden_response"
  "is_error_response unknown_type_response"
  "is_error_response bad_signature_response"
  "is_ephemeral (select_response fs)"
  "is_ephemeral (message_response msg)"
  "response_flags add_response = None"
  "\<not> is_ephemeral add_response"
  "\<not> is_pong add_response"
  "\<not> is_error_response add_response"
  by (simp_all add: is_pong_def is_error_response_def is_ephemeral_def response_flags_def
      pong_response_def forbidden_response_def unknown_type_response_def select_response_def
      message_response_def add_response_def bad_signature_response_def JsonResponse_def
      EPHEMERAL_def)

section \<open>Properties\<close>

text \<open>
  Claim C1. A sequence of \<^verbatim>\<open>storeFact\<close> calls whose writes all succeed, started on a store
  whose texts all occur among the texts of the calls (the empty store, a missing or an
  unparsable file among them), ends in a stored collection that holds every text of the
  calls exactly once and no other text. The flag of each stored fact is the
  \<^verbatim>\<open>is_enabled\<close> argument of the most recent call for its text, and \<open>True\<close> where that
  call left the argument out.
\<close>

theorem storeFact_seq_last_write_wins:
  assumes "writable w"
    and "set (map fact_text (stored_collection w)) \<subseteq> fst ` set calls"
  shows "\<exists>w'. storeFact_seq calls w = (Inr (), w') \<and>
           distinct (map fact_text (stored_collection w')) \<and>
           set (map fact_text (stored_collection w')) = fst ` set calls \<and>
           (\<forall>f \<in> set (stored_collection w').
              \<exists>a. map_of (rev calls) (fact_text f) = Some a \<and>
                  is_enabled f = (case a of None \<Rightarrow> True | Some b \<Rightarrow> b))"
proof -
  from storeFact_seq_general [OF assms(1), of calls] obtain w' where
    run: "storeFact_seq calls w = (Inr (), w')"
    and texts: "set (map fact_text (stored_collection w'))
             = set (map fact_text (stored_collection w)) \<union> fst ` set calls"
    and dist: "calls \<noteq> [] \<longrightarrow> distinct (map fact_text (stored_collection w'))"
    and flags: "\<forall>f \<in> set (stored_collection w').
              case map_of (rev calls) (fact_text f) of
                Some a \<Rightarrow> is_enabled f = (case a of None \<Rightarrow> True | Some b \<Rightarrow> b)
              | None \<Rightarrow> f \<in> set (stored_collection w)"
    by blast
  from texts assms(2) have t: "set (map fact_text (stored_collection w')) = fst ` set calls"
    by auto
  have d: "distinct (map fact_text (stored_collection w'))"
  proof (cases "calls = []")
    case True
    with t show ?thesis by simp
  next
    case False
    with dist show ?thesis by simp
  qed
  have e: "\<forall>f \<in> set (stored_collection w').
              \<exists>a. map_of (rev calls) (fact_text f) = Some a \<and>
                  is_enabled f = (case a of None \<Rightarrow> True | Some b \<Rightarrow> b)"
  proof
    fix f assume f: "f \<in> set (stored_collection w')"
    then have "fact_text f \<in> fst ` set (rev calls)" using t by auto
    then have "fact_text f \<in> dom (map_of (rev calls))"
      by (simp only: dom_map_of_conv_image_fst)
    then obtain a where a: "map_of (rev calls) (fact_text f) = Some a" by blast
    with flags f show "\<exists>a. map_of (rev calls) (fact_text f) = Some a \<and>
                  is_enabled f = (case a of None \<Rightarrow> True | Some b \<Rightarrow> b)"
      by force
  qed
  from run t d e show ?thesis by blast
qed

text \<open>
  Four calls on a missing file: \<open>A\<close> is added by default and then disabled, \<open>B\<close> is added
  disabled and then added again by default.
\<close>

theorem storeFact_seq_last_write_wins_witness:
  "writable \<lparr>facts_file = None, writable = True, fs_log = [], console = []\<rparr> \<and>
   set (map fact_text
          (stored_collection \<lparr>facts_file = None, writable = True, fs_log = [], console = []\<rparr>))
     \<subseteq> fst ` set [(''A'', None), (''B'', Some False), (''A'', Some False), (''B'', None)] \<and>
   (\<exists>w'. storeFact_seq [(''A'', None), (''B'', Some False), (''A'', Some False), (''B'', None)]
           \<lparr>facts_file = None, writable = True, fs_log = [], console = []\<rparr> = (Inr (), w') \<and>
         stored_collection w' = [\<lparr>fact_text = ''A'', is_enabled = False\<rparr>,
                                 \<lparr>fact_text = ''B'', is_enabled = True\<rparr>] \<and>
         distinct (map fact_text (stored_collection w')) \<and>
         set (map fact_text (stored_collection w'))
           = fst ` set [(''A'', None), (''B'', Some False), (''A'', Some False), (''B'', None)] \<and>
         (\<forall>f \<in> set (stored_collection w').
            \<exists>a. map_of (rev [(''A'', None), (''B'', Some False), (''A'', Some False),
                              (''B'', None)]) (fact_text f) = Some a \<and>
                is_enabled f = (case a of None \<Rightarrow> True | Some b \<Rightarrow> b)))"
proof -
  let ?w = "\<lparr>facts_file = None, writable = True, fs_log = [], console = []\<rparr>"
  let ?calls = "[(''A'', None), (''B'', Some False), (''A'', Some False), (''B'', None :: bool option)]"
  have h1: "writable ?w" by simp
  have h2: "set (map fact_text (stored_collection ?w)) \<subseteq> fst ` set ?calls"
    by (simp add: stored_collection_def)
  from storeFact_seq_last_write_wins [OF h1 h2] obtain w' where
    run: "storeFact_seq ?calls ?w = (Inr (), w')"
    and rest: "distinct (map fact_text (stored_collection w'))"
      "set (map fact_text (stored_collection w')) = fst ` set ?calls"
      "\<forall>f \<in> set (stored_collection w').
              \<exists>a. map_of (rev ?calls) (fact_text f) = Some a \<and>
                  is_enabled f = (case a of None \<Rightarrow> True | Some b \<Rightarrow> b)"
    by blast
  have "stored_collection (snd (storeFact_seq ?calls ?w))
          = [\<lparr>fact_text = ''A'', is_enabled = False\<rparr>, \<lparr>fact_text = ''B'', is_enabled = True\<rparr>]"
    by (simp add: store_defs)
  with run have val: "stored_collection w'
          = [\<lparr>fact_text = ''A'', is_enabled = False\<rparr>, \<lparr>fact_text = ''B'', is_enabled = True\<rparr>]"
    by simp
  from h1 h2 run val rest show ?thesis by blast
qed

text \<open>
  Claim C2 speaks of every stored collection. On a backing file that holds the text \<open>A\<close>
  twice, \<^verbatim>\<open>storeFacts\<close> writes a single entry for \<open>A\<close>: the \<^verbatim>\<open>Map\<close> keyed by text
  collapses the two, so the sequence of texts is not the one that was stored.
\<close>

theorem storeFacts_duplicates_counterexample:
  "fst (storeFacts [''A'']
          \<lparr>facts_file = Some (Json [\<lparr>fact_text = ''A'', is_enabled = True\<rparr>,
                                     \<lparr>fact_text = ''A'', is_enabled = False\<rparr>]),
           writable = True, fs_log = [], console = []\<rparr>) = Inr () \<and>
   map fact_text (stored_collection (snd (storeFacts [''A'']
          \<lparr>facts_file = Some (Json [\<lparr>fact_text = ''A'', is_enabled = True\<rparr>,
                                     \<lparr>fact_text = ''A'', is_enabled = False\<rparr>]),
           writable = True, fs_log = [], console = []\<rparr>))) = [''A''] \<and>
   map fact_text (stored_collection
          \<lparr>facts_file = Some (Json [\<lparr>fact_text = ''A'', is_enabled = True\<rparr>,
                                     \<lparr>fact_text = ''A'', is_enabled = False\<rparr>]),
           writable = True, fs_log = [], console = []\<rparr>) = [''A'', ''A'']"
  by (simp add: store_defs)

text \<open>
  Claim C2, amended. When the write succeeds, \<^verbatim>\<open>storeFacts\<close> leaves the set of stored
  texts unchanged, with one entry for each text, and the flag of every stored fact is
  whether its text is among the selected values. For a stored collection whose texts are
  pairwise distinct, and so for every collection that the store itself has written, the
  sequence of texts is unchanged: no fact is added, removed or reordered.
\<close>

theorem storeFacts_sets_flags:
  assumes "writable w"
  shows "\<exists>w'. storeFacts sel w = (Inr (), w') \<and>
           set (map fact_text (stored_collection w'))
             = set (map fact_text (stored_collection w)) \<and>
           distinct (map fact_text (stored_collection w')) \<and>
           (\<forall>f \<in> set (stored_collection w'). is_enabled f = (fact_text f \<in> set sel)) \<and>
           (distinct (map fact_text (stored_collection w)) \<longrightarrow>
              map fact_text (stored_collection w') = map fact_text (stored_collection w))"
proof -
  from storeFacts_ok [OF assms, of sel] obtain w' where
    run: "storeFacts sel w = (Inr (), w')"
    and f: "facts_file w' = Some (Json (storeFacts_deduped sel (stored_collection w)))"
    by blast
  from f have sc: "stored_collection w' = storeFacts_deduped sel (stored_collection w)"
    by (rule stored_collection_Json)
  have a: "set (map fact_text (stored_collection w'))
             = set (map fact_text (stored_collection w))"
    by (simp only: sc storeFacts_deduped_set)
  have b: "\<forall>f \<in> set (stored_collection w'). is_enabled f = (fact_text f \<in> set sel)"
    using storeFacts_deduped_mem by (simp add: sc)
  have c: "distinct (map fact_text (stored_collection w)) \<longrightarrow>
              map fact_text (stored_collection w') = map fact_text (stored_collection w)"
    by (simp add: sc storeFacts_deduped_id comp_def)
  have d: "distinct (map fact_text (stored_collection w'))"
    by (simp only: sc storeFacts_deduped_distinct)
  from run a b c d show ?thesis by blast
qed

text \<open>The scenario of the specification: \<open>A\<close> enabled and \<open>B\<close> disabled, with \<open>B\<close> selected.\<close>

theorem storeFacts_sets_flags_witness:
  "writable \<lparr>facts_file = Some (Json [\<lparr>fact_text = ''A'', is_enabled = True\<rparr>,
                                       \<lparr>fact_text = ''B'', is_enabled = False\<rparr>]),
             writable = True, fs_log = [], console = []\<rparr> \<and>
   distinct (map fact_text (stored_collection
            \<lparr>facts_file = Some (Json [\<lparr>fact_text = ''A'', is_enabled = True\<rparr>,
                                       \<lparr>fact_text = ''B'', is_enabled = False\<rparr>]),
             writable = True, fs_log = [], console = []\<rparr>)) \<and>
   (\<exists>w'. storeFacts [''B'']
            \<lparr>facts_file = Some (Json [\<lparr>fact_text = ''A'', is_enabled = True\<rparr>,
                                       \<lparr>fact_text = ''B'', is_enabled = False\<rparr>]),
             writable = True, fs_log = [], console = []\<rparr> = (Inr (), w') \<and>
          stored_collection w' = [\<lparr>fact_text = ''A'', is_enabled = False\<rparr>,
                                  \<lparr>fact_text = ''B'', is_enabled = True\<rparr>] \<and>
          (\<forall>f \<in> set (stored_collection w'). is_enabled f = (fact_text f \<in> set [''B''])) \<and>
          map fact_text (stored_collection w') = [''A'', ''B''])"
proof -
  let ?w = "\<lparr>facts_file = Some (Json [\<lparr>fact_text = ''A'', is_enabled = True\<rparr>,
                                       \<lparr>fact_text = ''B'', is_enabled = False\<rparr>]),
             writable = True, fs_log = [], console = []\<rparr>"
  have h1: "writable ?w" by simp
  have h2: "distinct (map fact_text (stored_collection ?w))"
    by (simp add: stored_collection_def)
  have sc: "map fact_text (stored_collection ?w) = [''A'', ''B'']"
    by (simp add: stored_collection_def)
  from storeFacts_sets_flags [OF h1, of "[''B'']"] h2 obtain w' where
    run: "storeFacts [''B''] ?w = (Inr (), w')"
    and flags: "\<forall>f \<in> set (stored_collection w'). is_enabled f = (fact_text f \<in> set [''B''])"
    and texts: "map fact_text (stored_collection w') = map fact_text (stored_collection ?w)"
    by blast
  have "stored_collection (snd (storeFacts [''B''] ?w))
          = [\<lparr>fact_text = ''A'', is_enabled = False\<rparr>, \<lparr>fact_text = ''B'', is_enabled = True\<rparr>]"
    by (simp add: store_defs)
  with run have val: "stored_collection w'
          = [\<lparr>fact_text = ''A'', is_enabled = False\<rparr>, \<lparr>fact_text = ''B'', is_enabled = True\<rparr>]"
    by simp
  from h1 h2 run val flags texts sc show ?thesis by auto
qed

text \<open>
  Claim C3. When the backing file is missing or its content does not parse,
  \<^verbatim>\<open>getFacts\<close> returns the empty array: the result is a value, not a rejection.
\<close>

theorem getFacts_missing_or_corrupt:
  assumes "facts_file w = None \<or> facts_file w = Some Malformed"
  shows "fst (getFacts w) = Inr []"
  using assms
  by (auto simp: getFacts_def readFile_def JSON_parse_def)

text \<open>A missing file, and a file of bytes that are not JSON.\<close>

theorem getFacts_missing_or_corrupt_witness:
  "(facts_file \<lparr>facts_file = None, writable = True, fs_log = [], console = []\<rparr> = None \<or>
    facts_file \<lparr>facts_file = None, writable = True, fs_log = [], console = []\<rparr>
      = Some Malformed) \<and>
   fst (getFacts \<lparr>facts_file = None, writable = True, fs_log = [], console = []\<rparr>) = Inr [] \<and>
   (facts_file \<lparr>facts_file = Some Malformed, writable = False, fs_log = [], console = []\<rparr>
      = None \<or>
    facts_file \<lparr>facts_file = Some Malformed, writable = False, fs_log = [], console = []\<rparr>
      = Some Malformed) \<and>
   fst (getFacts \<lparr>facts_file = Some Malformed, writable = False, fs_log = [], console = []\<rparr>)
     = Inr []"
proof -
  let ?w1 = "\<lparr>facts_file = None, writable = True, fs_log = [], console = []\<rparr>"
  let ?w2 = "\<lparr>facts_file = Some Malformed, writable = False, fs_log = [], console = []\<rparr>"
  have h1: "facts_file ?w1 = None \<or> facts_file ?w1 = Some Malformed" by simp
  have h2: "facts_file ?w2 = None \<or> facts_file ?w2 = Some Malformed" by simp
  from h1 h2 getFacts_missing_or_corrupt [OF h1] getFacts_missing_or_corrupt [OF h2]
  show ?thesis by blast
qed

text \<open>
  Claim C4. \<^verbatim>\<open>validateUserAccess\<close> returns nothing, which lets the caller go on, exactly
  for the user names \<open>LuggageMoose\<close> and \<open>encryptoknight\<close>; for every other string, the
  empty one included, it returns the 403 response.
\<close>

theorem validateUserAccess_allow_list:
  "fst (validateUserAccess name w) =
     (if name = ''LuggageMoose'' \<or> name = ''encryptoknight'' then None
      else Some forbidden_response)"
  by (simp add: validateUserAccess_def forbidden_response_def)

text \<open>The two names of the list, the empty name, and a name that differs in case only.\<close>

theorem validateUserAccess_allow_list_witness:
  "fst (validateUserAccess ''LuggageMoose''
          \<lparr>facts_file = None, writable = True, fs_log = [], console = []\<rparr>) = None \<and>
   fst (validateUserAccess ''encryptoknight''
          \<lparr>facts_file = None, writable = True, fs_log = [], console = []\<rparr>) = None \<and>
   fst (validateUserAccess []
          \<lparr>facts_file = None, writable = True, fs_log = [], console = []\<rparr>)
     = Some forbidden_response \<and>
   fst (validateUserAccess ''luggagemoose''
          \<lparr>facts_file = None, writable = True, fs_log = [], console = []\<rparr>)
     = Some forbidden_response"
  using validateUserAccess_allow_list
      [of "''LuggageMoose''" "\<lparr>facts_file = None, writable = True, fs_log = [], console = []\<rparr>"]
    validateUserAccess_allow_list
      [of "''encryptoknight''" "\<lparr>facts_file = None, writable = True, fs_log = [], console = []\<rparr>"]
    validateUserAccess_allow_list
      [of "[]" "\<lparr>facts_file = None, writable = True, fs_log = [], console = []\<rparr>"]
    validateUserAccess_allow_list
      [of "''luggagemoose''" "\<lparr>facts_file = None, writable = True, fs_log = [], console = []\<rparr>"]
  by simp

text \<open>
  Claim C5 speaks of every interaction that is not a \<open>PING\<close>. An interaction of a type
  that the route does not know, here an autocomplete request, never reaches the guard: a
  user whom the guard would deny gets the 400 response \<open>Unknown Type\<close>, not the 403.
\<close>

theorem denied_unknown_type_counterexample:
  "itype \<lparr>itype = APPLICATION_COMMAND_AUTOCOMPLETE, username = ''mallory'', data = NoData\<rparr>
     \<noteq> PING \<and>
   fst (validateUserAccess
          (username \<lparr>itype = APPLICATION_COMMAND_AUTOCOMPLETE, username = ''mallory'',
                     data = NoData\<rparr>)
          \<lparr>facts_file = None, writable = True, fs_log = [], console = []\<rparr>)
     = Some forbidden_response \<and>
   fst (handle_interaction
          \<lparr>itype = APPLICATION_COMMAND_AUTOCOMPLETE, username = ''mallory'', data = NoData\<rparr>
          \<lparr>facts_file = None, writable = True, fs_log = [], console = []\<rparr>)
     = Inr unknown_type_response \<and>
   status unknown_type_response = 400 \<and>
   status forbidden_response = 403"
  by (simp add: handle_interaction_def validateUserAccess_def forbidden_response_def
      unknown_type_response_def JsonResponse_def)

text \<open>
  Claim C5, amended. For every interaction that is not a \<open>PING\<close> and whose user name the
  guard denies, the handler makes no access to the store: the backing file is neither read
  nor written and its content is unchanged. The response is the 403
  \<open>Invalid user access\<close> when the type is \<open>APPLICATION_COMMAND\<close>, \<open>MODAL_SUBMIT\<close> or
  \<open>MESSAGE_COMPONENT\<close>, and the 400 \<open>Unknown Type\<close> for any other type.
\<close>

theorem denied_user_no_store_access:
  assumes "itype i \<noteq> PING"
    and "fst (validateUserAccess (username i) w) \<noteq> None"
  shows "\<exists>w'. handle_interaction i w =
            (Inr (if itype i = APPLICATION_COMMAND \<or> itype i = MODAL_SUBMIT
                     \<or> itype i = MESSAGE_COMPONENT
                  then forbidden_response else unknown_type_response), w') \<and>
          fs_log w' = fs_log w \<and> facts_file w' = facts_file w"
  using assms(1) validateUserAccess_denied [OF assms(2)]
  by (simp add: handle_interaction_def console_error_def)

text \<open>A modal submitted by a user who is not on the list: nothing is stored.\<close>

theorem denied_user_no_store_access_witness:
  "itype \<lparr>itype = MODAL_SUBMIT, username = ''mallory'', data = ModalData [[''Ben naps'']]\<rparr>
     \<noteq> PING \<and>
   fst (validateUserAccess
          (username \<lparr>itype = MODAL_SUBMIT, username = ''mallory'',
                     data = ModalData [[''Ben naps'']]\<rparr>)
          \<lparr>facts_file = None, writable = True, fs_log = [], console = []\<rparr>) \<noteq> None \<and>
   handle_interaction
     \<lparr>itype = MODAL_SUBMIT, username = ''mallory'', data = ModalData [[''Ben naps'']]\<rparr>
     \<lparr>facts_file = None, writable = True, fs_log = [], console = []\<rparr>
   = (Inr forbidden_response,
      \<lparr>facts_file = None, writable = True, fs_log = [], console = [''Invalid user access'']\<rparr>)"
proof -
  let ?i = "\<lparr>itype = MODAL_SUBMIT, username = ''mallory'', data = ModalData [[''Ben naps'']]\<rparr>"
  let ?w = "\<lparr>facts_file = None, writable = True, fs_log = [], console = []\<rparr>"
  have h1: "itype ?i \<noteq> PING" by simp
  have h2: "fst (validateUserAccess (username ?i) ?w) \<noteq> None"
    by (simp add: validateUserAccess_def)
  from denied_user_no_store_access [OF h1 h2] obtain w' where
    run: "handle_interaction ?i ?w = (Inr forbidden_response, w')"
    by auto
  have "snd (handle_interaction ?i ?w)
        = \<lparr>facts_file = None, writable = True, fs_log = [],
           console = [''Invalid user access'']\<rparr>"
    by (simp add: handle_interaction_def validateUserAccess_def console_error_def)
  with run h1 h2 show ?thesis by simp
qed

text \<open>
  Claim C6. For an allowed user and a command whose name is \<open>select\<close> in lower case, the
  response is a message with one action row holding one string select. Its options are
  the stored facts in order, each with label and value equal to the text of the fact and
  default equal to its flag; \<open>min_values\<close> is 1 and \<open>max_values\<close> is the number of stored
  facts.
\<close>

theorem select_command_options:
  assumes "itype i = APPLICATION_COMMAND"
    and "fst (validateUserAccess (username i) w) = None"
    and "data i = CommandData n"
    and "toLowerCase n = ''select''"
  shows "fst (handle_interaction i w) =
     Inr \<lparr>body = JsonBody
            (InteractionResponse CHANNEL_MESSAGE_WITH_SOURCE
               (Some \<lparr>custom_id = None, title = None, content = None,
                      components =
                        Some [ACTION_ROW
                                [STRING_SELECT ''select_facts''
                                   ''Choose which of Ben's facts will make the cut!''
                                   1 (length (stored_collection w))
                                   (map (\<lambda>f. \<lparr>opt_label = fact_text f,
                                               opt_value = fact_text f,
                                               opt_default = is_enabled f\<rparr>)
                                      (stored_collection w))]],
                      flags = Some EPHEMERAL\<rparr>)),
          status = 200,
          headers = [(''content-type'', ''application/json;charset=UTF-8'')]\<rparr>"
proof -
  obtain w1 where g: "getFacts w = (Inr (stored_collection w), w1)"
    using getFacts_eq [of w] by blast
  show ?thesis
    by (simp add: handle_interaction_def assms(1,3,4) validateUserAccess_allowed [OF assms(2)]
        command_names g select_response_def JsonResponse_def)
qed

text \<open>The scenario of the specification: the file holds the one fact \<open>Ben likes tea\<close>, enabled.\<close>

theorem select_command_options_witness:
  "itype \<lparr>itype = APPLICATION_COMMAND, username = ''LuggageMoose'',
          data = CommandData ''select''\<rparr> = APPLICATION_COMMAND \<and>
   fst (validateUserAccess
          (username \<lparr>itype = APPLICATION_COMMAND, username = ''LuggageMoose'',
                     data = CommandData ''select''\<rparr>)
          \<lparr>facts_file = Some (Json [\<lparr>fact_text = ''Ben likes tea'', is_enabled = True\<rparr>]),
           writable = True, fs_log = [], console = []\<rparr>) = None \<and>
   toLowerCase ''select'' = ''select'' \<and>
   fst (handle_interaction
          \<lparr>itype = APPLICATION_COMMAND, username = ''LuggageMoose'',
           data = CommandData ''select''\<rparr>
          \<lparr>facts_file = Some (Json [\<lparr>fact_text = ''Ben likes tea'', is_enabled = True\<rparr>]),
           writable = True, fs_log = [], console = []\<rparr>) =
     Inr \<lparr>body = JsonBody
            (InteractionResponse CHANNEL_MESSAGE_WITH_SOURCE
               (Some \<lparr>custom_id = None, title = None, content = None,
                      components =
                        Some [ACTION_ROW
                                [STRING_SELECT ''select_facts''
                                   ''Choose which of Ben's facts will make the cut!''
                                   1 1
                                   [\<lparr>opt_label = ''Ben likes tea'',
                                     opt_value = ''Ben likes tea'',
                                     opt_default = True\<rparr>]]],
                      flags = Some EPHEMERAL\<rparr>)),
          status = 200,
          headers = [(''content-type'', ''application/json;charset=UTF-8'')]\<rparr>"
proof -
  let ?i = "\<lparr>itype = APPLICATION_COMMAND, username = ''LuggageMoose'',
             data = CommandData ''select''\<rparr>"
  let ?w = "\<lparr>facts_file = Some (Json [\<lparr>fact_text = ''Ben likes tea'', is_enabled = True\<rparr>]),
             writable = True, fs_log = [], console = []\<rparr>"
  have h1: "itype ?i = APPLICATION_COMMAND" by simp
  have h2: "fst (validateUserAccess (username ?i) ?w) = None"
    by (simp add: validateUserAccess_def)
  have h3: "data ?i = CommandData ''select''" by simp
  have h4: "toLowerCase ''select'' = ''select''" by (rule toLowerCase_select)
  have sc: "stored_collection ?w = [\<lparr>fact_text = ''Ben likes tea'', is_enabled = True\<rparr>]"
    by (simp add: stored_collection_def)
  from select_command_options [OF h1 h2 h3 h4] h1 h2 h4 show ?thesis
    by (simp add: sc)
qed

text \<open>
  Claim C7 says that some command named \<open>list\<close> from an allowed user is answered with a
  listing. The switch of the route has the cases \<open>add\<close> and \<open>select\<close> and a default: for
  \<open>LuggageMoose\<close> on a store of one fact the command \<open>list\<close> gets the 400 response
  \<open>Unknown Type\<close>, and no allowed user in any state gets anything else for it.
\<close>

theorem list_command_counterexample:
  "handle_interaction
     \<lparr>itype = APPLICATION_COMMAND, username = ''LuggageMoose'', data = CommandData ''list''\<rparr>
     \<lparr>facts_file = Some (Json [\<lparr>fact_text = ''Ben likes tea'', is_enabled = True\<rparr>]),
      writable = True, fs_log = [], console = []\<rparr>
   = (Inr unknown_type_response,
      \<lparr>facts_file = Some (Json [\<lparr>fact_text = ''Ben likes tea'', is_enabled = True\<rparr>]),
       writable = True, fs_log = [], console = []\<rparr>) \<and>
   body unknown_type_response = JsonBody (ErrorObj ''Unknown Type'') \<and>
   status unknown_type_response = 400 \<and>
   \<not> (\<exists>name w.
        fst (validateUserAccess name w) = None \<and>
        fst (handle_interaction
               \<lparr>itype = APPLICATION_COMMAND, username = name, data = CommandData ''list''\<rparr> w)
          \<noteq> Inr unknown_type_response)"
proof -
  have "fst (handle_interaction
               \<lparr>itype = APPLICATION_COMMAND, username = name, data = CommandData ''list''\<rparr> w)
          = Inr unknown_type_response"
    if "fst (validateUserAccess name w) = None" for name w
    using validateUserAccess_allowed [OF that]
    by (simp add: handle_interaction_def command_names toLowerCase_list)
  then show ?thesis
    by (simp add: handle_interaction_def validateUserAccess_def command_names toLowerCase_list
        unknown_type_response_def JsonResponse_def)
qed

text \<open>
  Claim C7, amended. The route serves the commands \<open>add\<close> and \<open>select\<close> and no other:
  for an allowed user, a command whose name in lower case is neither \<open>add\<close> nor
  \<open>select\<close>, the name \<open>list\<close> among them, is answered with the 400 response
  \<open>Unknown Type\<close>; the store is not accessed and the state does not change.
\<close>

theorem unknown_command_unknown_type:
  assumes "itype i = APPLICATION_COMMAND"
    and "fst (validateUserAccess (username i) w) = None"
    and "data i = CommandData n"
    and "toLowerCase n \<noteq> ''add''"
    and "toLowerCase n \<noteq> ''select''"
  shows "handle_interaction i w = (Inr unknown_type_response, w) \<and>
         body unknown_type_response = JsonBody (ErrorObj ''Unknown Type'') \<and>
         status unknown_type_response = 400"
  using assms(4,5)
  by (simp add: handle_interaction_def assms(1,3) validateUserAccess_allowed [OF assms(2)]
      command_names unknown_type_response_def JsonResponse_def)

text \<open>The name of \<^verbatim>\<open>LIST_COMMAND\<close>, from an allowed user, on a store of one fact.\<close>

theorem unknown_command_unknown_type_witness:
  "itype \<lparr>itype = APPLICATION_COMMAND, username = ''encryptoknight'',
          data = CommandData LIST_COMMAND_name\<rparr> = APPLICATION_COMMAND \<and>
   fst (validateUserAccess
          (username \<lparr>itype = APPLICATION_COMMAND, username = ''encryptoknight'',
                     data = CommandData LIST_COMMAND_name\<rparr>)
          \<lparr>facts_file = Some (Json [\<lparr>fact_text = ''Ben likes tea'', is_enabled = True\<rparr>]),
           writable = True, fs_log = [], console = []\<rparr>) = None \<and>
   toLowerCase LIST_COMMAND_name \<noteq> ''add'' \<and>
   toLowerCase LIST_COMMAND_name \<noteq> ''select'' \<and>
   handle_interaction
     \<lparr>itype = APPLICATION_COMMAND, username = ''encryptoknight'',
      data = CommandData LIST_COMMAND_name\<rparr>
     \<lparr>facts_file = Some (Json [\<lparr>fact_text = ''Ben likes tea'', is_enabled = True\<rparr>]),
      writable = True, fs_log = [], console = []\<rparr>
   = (Inr unknown_type_response,
      \<lparr>facts_file = Some (Json [\<lparr>fact_text = ''Ben likes tea'', is_enabled = True\<rparr>]),
       writable = True, fs_log = [], console = []\<rparr>)"
proof -
  let ?i = "\<lparr>itype = APPLICATION_COMMAND, username = ''encryptoknight'',
             data = CommandData LIST_COMMAND_name\<rparr>"
  let ?w = "\<lparr>facts_file = Some (Json [\<lparr>fact_text = ''Ben likes tea'', is_enabled = True\<rparr>]),
             writable = True, fs_log = [], console = []\<rparr>"
  have h1: "itype ?i = APPLICATION_COMMAND" by simp
  have h2: "fst (validateUserAccess (username ?i) ?w) = None"
    by (simp add: validateUserAccess_def)
  have h3: "data ?i = CommandData LIST_COMMAND_name" by simp
  have h4: "toLowerCase LIST_COMMAND_name \<noteq> ''add''"
    by (simp add: LIST_COMMAND_name_def toLowerCase_list)
  have h5: "toLowerCase LIST_COMMAND_name \<noteq> ''select''"
    by (simp add: LIST_COMMAND_name_def toLowerCase_list)
  from unknown_command_unknown_type [OF h1 h2 h3 h4 h5] h1 h2 h4 h5 show ?thesis
    by blast
qed

text \<open>
  Claim C8 names the form prompt of the command \<open>add\<close> among the ephemeral responses. The
  modal that the route returns for \<open>add\<close> carries no flags at all, and it is neither the
  \<open>PONG\<close> nor an error response.
\<close>

theorem add_modal_not_ephemeral_counterexample:
  "fst (post_root
          \<lparr>signature = Some ''sig'', timestamp = Some ''0'', verifyKey_ok = True,
           parsed_body = \<lparr>itype = APPLICATION_COMMAND, username = ''LuggageMoose'',
                          data = CommandData ''add''\<rparr>\<rparr>
          \<lparr>facts_file = None, writable = True, fs_log = [], console = []\<rparr>)
     = Inr add_response \<and>
   \<not> is_pong add_response \<and> \<not> is_error_response add_response \<and>
   \<not> is_ephemeral add_response"
  by (simp add: post_root_def verifyDiscordRequest_def handle_interaction_def
      validateUserAccess_def command_names toLowerCase_add response_kinds)

text \<open>
  Claim C8, amended. Every response of the route other than the \<open>PONG\<close>, the error
  responses and the modal of the command \<open>add\<close> is marked ephemeral; this holds for the
  prompt of the command \<open>select\<close> and for both confirmation messages. The modal of the
  command \<open>add\<close> carries no flags.
\<close>

theorem responses_ephemeral_except_modal:
  assumes "post_root req w = (Inr r, w')"
  shows "(is_pong r \<or> is_error_response r \<or> is_ephemeral r \<or>
          (r = add_response \<and> response_flags r = None)) \<and>
         is_ephemeral (select_response fs) \<and>
         is_ephemeral (message_response ''Fact added! They better hold on to their butts...'') \<and>
         is_ephemeral (message_response ''Facts updated!'')"
  using post_root_responses [OF assms] response_kinds by auto

text \<open>A selection by an allowed user, with a valid signature.\<close>

theorem responses_ephemeral_except_modal_witness:
  "post_root
     \<lparr>signature = Some ''sig'', timestamp = Some ''0'', verifyKey_ok = True,
      parsed_body = \<lparr>itype = MESSAGE_COMPONENT, username = ''encryptoknight'',
                     data = ComponentData [''Ben likes tea'']\<rparr>\<rparr>
     \<lparr>facts_file = Some (Json [\<lparr>fact_text = ''Ben likes tea'', is_enabled = False\<rparr>]),
      writable = True, fs_log = [], console = []\<rparr>
   = (Inr (message_response ''Facts updated!''),
      \<lparr>facts_file = Some (Json [\<lparr>fact_text = ''Ben likes tea'', is_enabled = True\<rparr>]),
       writable = True,
       fs_log = [ReadFile,
                 WriteFile (Json [\<lparr>fact_text = ''Ben likes tea'', is_enabled = True\<rparr>])],
       console = []\<rparr>) \<and>
   is_ephemeral (message_response ''Facts updated!'')"
proof -
  let ?req = "\<lparr>signature = Some ''sig'', timestamp = Some ''0'', verifyKey_ok = True,
      parsed_body = \<lparr>itype = MESSAGE_COMPONENT, username = ''encryptoknight'',
                     data = ComponentData [''Ben likes tea'']\<rparr>\<rparr>"
  let ?w = "\<lparr>facts_file = Some (Json [\<lparr>fact_text = ''Ben likes tea'', is_enabled = False\<rparr>]),
      writable = True, fs_log = [], console = []\<rparr>"
  let ?w' = "\<lparr>facts_file = Some (Json [\<lparr>fact_text = ''Ben likes tea'', is_enabled = True\<rparr>]),
       writable = True,
       fs_log = [ReadFile,
                 WriteFile (Json [\<lparr>fact_text = ''Ben likes tea'', is_enabled = True\<rparr>])],
       console = []\<rparr>"
  have run: "post_root ?req ?w = (Inr (message_response ''Facts updated!''), ?w')"
    by (simp add: post_root_def verifyDiscordRequest_def handle_interaction_def
        validateUserAccess_def store_defs)
  from responses_ephemeral_except_modal [OF run] run show ?thesis by simp
qed

text \<open>
  Claim C9. After a store mutation that succeeds, \<^verbatim>\<open>storeFact\<close> or \<^verbatim>\<open>storeFacts\<close>, a load
  returns the collection that the mutation wrote: the same facts in the same order, hence
  the same set of pairs of text and flag.
\<close>

theorem mutation_roundtrip:
  assumes "run_mutation m w = (Inr u, w')"
  shows "\<exists>written loaded.
           last_written w' = Some written \<and> fst (getFacts w') = Inr loaded \<and>
           loaded = written \<and>
           set (map (\<lambda>f. (fact_text f, is_enabled f)) loaded)
             = set (map (\<lambda>f. (fact_text f, is_enabled f)) written)"
proof (cases m)
  case (AddOne t a)
  with assms have "storeFact t a w = (Inr u, w')" by simp
  from storeFact_Inr [OF this] show ?thesis
    by (simp add: last_written_def getFacts_result stored_collection_def)
next
  case (SetEnabledSet sel)
  with assms have "storeFacts sel w = (Inr u, w')" by simp
  from storeFacts_Inr [OF this] show ?thesis
    by (simp add: last_written_def getFacts_result stored_collection_def)
qed

text \<open>The scenario of the specification: \<open>New fact\<close> is added to an empty store.\<close>

theorem mutation_roundtrip_witness:
  "run_mutation (AddOne ''New fact'' None)
     \<lparr>facts_file = None, writable = True, fs_log = [], console = []\<rparr>
   = (Inr (),
      \<lparr>facts_file = Some (Json [\<lparr>fact_text = ''New fact'', is_enabled = True\<rparr>]),
       writable = True,
       fs_log = [ReadFile, WriteFile (Json [\<lparr>fact_text = ''New fact'', is_enabled = True\<rparr>])],
       console = [''Error reading facts file:'']\<rparr>) \<and>
   last_written
      \<lparr>facts_file = Some (Json [\<lparr>fact_text = ''New fact'', is_enabled = True\<rparr>]),
       writable = True,
       fs_log = [ReadFile, WriteFile (Json [\<lparr>fact_text = ''New fact'', is_enabled = True\<rparr>])],
       console = [''Error reading facts file:'']\<rparr>
     = Some [\<lparr>fact_text = ''New fact'', is_enabled = True\<rparr>] \<and>
   fst (getFacts
      \<lparr>facts_file = Some (Json [\<lparr>fact_text = ''New fact'', is_enabled = True\<rparr>]),
       writable = True,
       fs_log = [ReadFile, WriteFile (Json [\<lparr>fact_text = ''New fact'', is_enabled = True\<rparr>])],
       console = [''Error reading facts file:'']\<rparr>)
     = Inr [\<lparr>fact_text = ''New fact'', is_enabled = True\<rparr>]"
proof -
  let ?w = "\<lparr>facts_file = None, writable = True, fs_log = [], console = []\<rparr>"
  let ?w' = "\<lparr>facts_file = Some (Json [\<lparr>fact_text = ''New fact'', is_enabled = True\<rparr>]),
       writable = True,
       fs_log = [ReadFile, WriteFile (Json [\<lparr>fact_text = ''New fact'', is_enabled = True\<rparr>])],
       console = [''Error reading facts file:'']\<rparr>"
  have run: "run_mutation (AddOne ''New fact'' None) ?w = (Inr (), ?w')"
    by (simp add: store_defs)
  have lw: "last_written ?w' = Some [\<lparr>fact_text = ''New fact'', is_enabled = True\<rparr>]"
    by (simp add: last_written_def)
  from mutation_roundtrip [OF run] lw run show ?thesis by simp
qed

text \<open>
  Claim C10. For an allowed user, a command name whose lower-case form is \<open>add\<close> or
  \<open>select\<close> gives the same result, response and state, as its lower-case form: the modal
  for \<open>add\<close>, the prompt over the stored facts for \<open>select\<close>.
\<close>

theorem command_name_case_insensitive:
  assumes "itype i = APPLICATION_COMMAND"
    and "fst (validateUserAccess (username i) w) = None"
    and "data i = CommandData n"
    and "toLowerCase n = ''add'' \<or> toLowerCase n = ''select''"
  shows "handle_interaction i w = handle_interaction (i\<lparr>data := CommandData (toLowerCase n)\<rparr>) w \<and>
         fst (handle_interaction i w)
           = Inr (if toLowerCase n = ''add'' then add_response
                  else select_response (stored_collection w))"
proof -
  obtain w1 where g: "getFacts w = (Inr (stored_collection w), w1)"
    using getFacts_eq [of w] by blast
  from assms(4) show ?thesis
  proof
    assume a: "toLowerCase n = ''add''"
    then show ?thesis
      by (simp add: handle_interaction_def assms(1,3) validateUserAccess_allowed [OF assms(2)]
          command_names toLowerCase_add)
  next
    assume s: "toLowerCase n = ''select''"
    then show ?thesis
      by (simp add: handle_interaction_def assms(1,3) validateUserAccess_allowed [OF assms(2)]
          command_names toLowerCase_select g)
  qed
qed

text \<open>The names \<open>ADD\<close> and \<open>Select\<close>.\<close>

theorem command_name_case_insensitive_witness:
  "toLowerCase ''ADD'' = ''add'' \<and> toLowerCase ''Select'' = ''select'' \<and>
   handle_interaction
     \<lparr>itype = APPLICATION_COMMAND, username = ''LuggageMoose'', data = CommandData ''ADD''\<rparr>
     \<lparr>facts_file = None, writable = True, fs_log = [], console = []\<rparr>
   = handle_interaction
     \<lparr>itype = APPLICATION_COMMAND, username = ''LuggageMoose'', data = CommandData ''add''\<rparr>
     \<lparr>facts_file = None, writable = True, fs_log = [], console = []\<rparr> \<and>
   fst (handle_interaction
     \<lparr>itype = APPLICATION_COMMAND, username = ''LuggageMoose'', data = CommandData ''ADD''\<rparr>
     \<lparr>facts_file = None, writable = True, fs_log = [], console = []\<rparr>) = Inr add_response \<and>
   handle_interaction
     \<lparr>itype = APPLICATION_COMMAND, username = ''LuggageMoose'', data = CommandData ''Select''\<rparr>
     \<lparr>facts_file = None, writable = True, fs_log = [], console = []\<rparr>
   = handle_interaction
     \<lparr>itype = APPLICATION_COMMAND, username = ''LuggageMoose'', data = CommandData ''select''\<rparr>
     \<lparr>facts_file = None, writable = True, fs_log = [], console = []\<rparr> \<and>
   fst (handle_interaction
     \<lparr>itype = APPLICATION_COMMAND, username = ''LuggageMoose'', data = CommandData ''Select''\<rparr>
     \<lparr>facts_file = None, writable = True, fs_log = [], console = []\<rparr>)
     = Inr (select_response [])"
proof -
  let ?w = "\<lparr>facts_file = None, writable = True, fs_log = [], console = []\<rparr>"
  let ?a = "\<lparr>itype = APPLICATION_COMMAND, username = ''LuggageMoose'',
             data = CommandData ''ADD''\<rparr>"
  let ?s = "\<lparr>itype = APPLICATION_COMMAND, username = ''LuggageMoose'',
             data = CommandData ''Select''\<rparr>"
  have la: "toLowerCase ''ADD'' = ''add''" by (simp add: toLowerCase_def lower_char_def)
  have ls: "toLowerCase ''Select'' = ''select''" by (simp add: toLowerCase_def lower_char_def)
  have ok: "fst (validateUserAccess ''LuggageMoose'' ?w) = None"
    by (simp add: validateUserAccess_def)
  have a: "handle_interaction ?a ?w
             = handle_interaction (?a\<lparr>data := CommandData (toLowerCase ''ADD'')\<rparr>) ?w \<and>
           fst (handle_interaction ?a ?w)
             = Inr (if toLowerCase ''ADD'' = ''add'' then add_response
                    else select_response (stored_collection ?w))"
    by (rule command_name_case_insensitive) (simp_all add: ok la)
  have s: "handle_interaction ?s ?w
             = handle_interaction (?s\<lparr>data := CommandData (toLowerCase ''Select'')\<rparr>) ?w \<and>
           fst (handle_interaction ?s ?w)
             = Inr (if toLowerCase ''Select'' = ''add'' then add_response
                    else select_response (stored_collection ?w))"
    by (rule command_name_case_insensitive) (simp_all add: ok ls)
  have sc: "stored_collection ?w = []" by (simp add: stored_collection_def)
  have ua: "?a\<lparr>data := CommandData (toLowerCase ''ADD'')\<rparr>
            = \<lparr>itype = APPLICATION_COMMAND, username = ''LuggageMoose'',
               data = CommandData ''add''\<rparr>"
    by (simp add: la)
  have us: "?s\<lparr>data := CommandData (toLowerCase ''Select'')\<rparr>
            = \<lparr>itype = APPLICATION_COMMAND, username = ''LuggageMoose'',
               data = CommandData ''select''\<rparr>"
    by (simp add: ls)
  from a [THEN conjunct1] have a1: "handle_interaction ?a ?w
        = handle_interaction \<lparr>itype = APPLICATION_COMMAND, username = ''LuggageMoose'',
                               data = CommandData ''add''\<rparr> ?w"
    by (simp only: ua)
  from a [THEN conjunct2] have a2: "fst (handle_interaction ?a ?w) = Inr add_response"
    by (simp add: la)
  from s [THEN conjunct1] have s1: "handle_interaction ?s ?w
        = handle_interaction \<lparr>itype = APPLICATION_COMMAND, username = ''LuggageMoose'',
                               data = CommandData ''select''\<rparr> ?w"
    by (simp only: us)
  from s [THEN conjunct2] have s2: "fst (handle_interaction ?s ?w) = Inr (select_response [])"
    by (simp add: ls sc)
  from a1 a2 s1 s2 la ls show ?thesis by blast
qed

end
